theory Spec2Isabelle
  imports Main "HOL-Library.Sublist" "HOL-Library.AList"
begin

section \<open>Python values, exceptions and string primitives\<close>

text \<open>
  A Python \<^verbatim>\<open>str\<close> is modelled as a \<^typ>\<open>string\<close> holding the bytes of its UTF-8
  encoding; an ASCII character is one \<^typ>\<open>char\<close>. The arguments that the source
  does not restrict to strings (the url given to the constructor, the fragment given
  to \<^verbatim>\<open>unparse\<close>) are values of \<open>pyval\<close>.
\<close>

datatype pyval = PyNone | PyStr string | PyInt int

text \<open>
  The exceptions the code can raise. \<^verbatim>\<open>class InvalidDIDUrlError(DIDError, ValueError)\<close>
  is a subclass of \<^verbatim>\<open>ValueError\<close>; \<^verbatim>\<open>TypeError\<close> is not.
\<close>

datatype exn = InvalidDIDUrlError string | ValueError | TypeError

fun isinstance_ValueError :: "exn \<Rightarrow> bool" where
  "isinstance_ValueError (InvalidDIDUrlError msg) = True"
| "isinstance_ValueError ValueError = True"
| "isinstance_ValueError TypeError = False"

text \<open>Truthiness (\<^verbatim>\<open>bool(x)\<close>) and \<^verbatim>\<open>str(x)\<close>.\<close>

fun truthy :: "pyval \<Rightarrow> bool" where
  "truthy PyNone = False"
| "truthy (PyStr s) = (s \<noteq> [])"
| "truthy (PyInt n) = (n \<noteq> 0)"

fun decimal :: "nat \<Rightarrow> string" where
  "decimal n =
     (if n < 10 then [''0123456789'' ! n]
      else decimal (n div 10) @ [''0123456789'' ! (n mod 10)])"

declare decimal.simps [simp del]

fun py_str :: "pyval \<Rightarrow> string" where
  "py_str PyNone = ''None''"
| "py_str (PyStr s) = s"
| "py_str (PyInt n) = (if n < 0 then CHR ''-'' # decimal (nat (- n)) else decimal (nat n))"

text \<open>
  \<^verbatim>\<open>s.split(sep)\<close> without a limit: the text is cut at every occurrence of \<open>sep\<close>,
  found from left to right, the search resuming after each occurrence. An empty
  separator raises \<^verbatim>\<open>ValueError\<close>.
\<close>

function splits :: "string \<Rightarrow> string \<Rightarrow> string \<Rightarrow> string list" where
  "splits sep cur [] = [cur]"
| "splits sep cur (c # cs) =
     (if sep \<noteq> [] \<and> prefix sep (c # cs)
      then cur # splits sep [] (drop (length sep) (c # cs))
      else splits sep (cur @ [c]) cs)"
  by pat_completeness auto
termination
  by (relation "measure (\<lambda>(sep, cur, s). length s)") auto

definition py_split :: "string \<Rightarrow> string \<Rightarrow> exn + string list" where
  "py_split s sep = (if sep = [] then Inl ValueError else Inr (splits sep [] s))"

text \<open>
  \<^verbatim>\<open>s.split(c, 1)\<close> for a character \<open>c\<close> that occurs in \<open>s\<close>, and the outer components
  of \<^verbatim>\<open>s.partition(c)\<close>: the text before the first \<open>c\<close> and the text after it.
\<close>

definition before_first :: "char \<Rightarrow> string \<Rightarrow> string" where
  "before_first c s = takeWhile (\<lambda>x. x \<noteq> c) s"

definition after_first :: "char \<Rightarrow> string \<Rightarrow> string" where
  "after_first c s = drop 1 (dropWhile (\<lambda>x. x \<noteq> c) s)"

definition isascii :: "char \<Rightarrow> bool" where
  "isascii c = (of_char c < (128::nat))"

section \<open>The patterns of pydid/common.py\<close>

definition method_char :: "char \<Rightarrow> bool" where
  "method_char c = (c \<in> set ''abcdefghijklmnopqrstuvwxyz0123456789'')"

definition idchar :: "char \<Rightarrow> bool" where
  "idchar c =
     (c \<in> set ''abcdefghijklmnopqrstuvwxyzABCDEFGHIJKLMNOPQRSTUVWXYZ0123456789.-_:'')"

text \<open>
  Modelled from the spec: \<^verbatim>\<open>DID_URL_DID_PART_PATTERN\<close> is imported from
  \<^verbatim>\<open>pydid/common.py\<close>, which is not among the sources. The spec gives it as a
  pattern anchored at the start of the string for \<^verbatim>\<open>did:<method>:<method-specific-id>\<close>,
  the method over lowercase letters and digits, the method-specific id over letters,
  digits and \<^verbatim>\<open>. - _ :\<close>, matched greedily. The function returns \<^verbatim>\<open>group(1)\<close> of
  \<^verbatim>\<open>DID_URL_DID_PART_PATTERN.match(url)\<close>, the DID, or \<open>None\<close> when there is no match.
\<close>

definition DID_URL_DID_PART_PATTERN :: "string \<Rightarrow> string option" where
  "DID_URL_DID_PART_PATTERN url =
     (if \<not> prefix ''did:'' url then None
      else
        let rest = drop 4 url;
            method = takeWhile method_char rest;
            rest' = dropWhile method_char rest;
            ident = takeWhile idchar (drop 1 rest')
        in if method = [] \<or> take 1 rest' \<noteq> '':'' \<or> ident = [] then None
           else Some (''did:'' @ method @ '':'' @ ident))"

text \<open>
  Modelled from the spec: \<^verbatim>\<open>DID_URL_RELATIVE_FRONT\<close> is imported from
  \<^verbatim>\<open>pydid/common.py\<close> as well. The spec gives it as a pattern anchored at the start
  that requires the string to begin with one of \<^verbatim>\<open>/ ? #\<close>. The function tells
  whether \<^verbatim>\<open>DID_URL_RELATIVE_FRONT.match(url)\<close> is a match.
\<close>

definition DID_URL_RELATIVE_FRONT :: "string \<Rightarrow> bool" where
  "DID_URL_RELATIVE_FRONT url = (case url of [] \<Rightarrow> False | c # cs \<Rightarrow> c \<in> set ''/?#'')"

section \<open>The parts of urllib.parse that the constructor calls (CPython 3.11)\<close>

text \<open>
  Three routines of the standard library depend on the Unicode database or on the
  \<^verbatim>\<open>ipaddress\<close> module. They are parameters of the model, so every theorem holds
  whatever they compute:
  \<^item> \<open>nfkc\<close> is \<^verbatim>\<open>unicodedata.normalize('NFKC', _)\<close>;
  \<^item> \<open>ip_address\<close> is \<^verbatim>\<open>ipaddress.ip_address\<close>: the kind of address, or \<open>None\<close> where
    it raises \<^verbatim>\<open>ValueError\<close>;
  \<^item> \<open>utf8_replace\<close> is \<^verbatim>\<open>bytes.decode('utf-8', 'replace')\<close>, the result again in UTF-8.
\<close>

datatype ip_kind = IPv4Address | IPv6Address

record stdlib =
  nfkc :: "string \<Rightarrow> string"
  ip_address :: "string \<Rightarrow> ip_kind option"
  utf8_replace :: "string \<Rightarrow> string"

text \<open>
  The instance used to evaluate the model on plain inputs. It is exact where the
  network location is ASCII without a bracketed host and the percent escapes of the
  query decode to valid UTF-8; the evaluations below stay within these inputs.
\<close>

definition ascii_stdlib :: stdlib where
  "ascii_stdlib = \<lparr> nfkc = (\<lambda>s. s), ip_address = (\<lambda>s. None), utf8_replace = (\<lambda>s. s) \<rparr>"

definition uses_params :: "string list" where
  "uses_params = ['''', ''ftp'', ''hdl'', ''prospero'', ''http'', ''imap'',
                  ''https'', ''shttp'', ''rtsp'', ''rtsps'', ''rtspu'', ''sip'',
                  ''sips'', ''mms'', ''sftp'', ''tel'']"

definition scheme_chars :: string where
  "scheme_chars = ''abcdefghijklmnopqrstuvwxyzABCDEFGHIJKLMNOPQRSTUVWXYZ0123456789+-.''"

definition ascii_letters :: string where
  "ascii_letters = ''abcdefghijklmnopqrstuvwxyzABCDEFGHIJKLMNOPQRSTUVWXYZ''"

definition hexdigits :: string where
  "hexdigits = ''0123456789abcdefABCDEF''"

text \<open>\<^verbatim>\<open>_WHATWG_C0_CONTROL_OR_SPACE\<close>: the characters 0x00 to 0x20.\<close>

definition WHATWG_C0_CONTROL_OR_SPACE :: "char \<Rightarrow> bool" where
  "WHATWG_C0_CONTROL_OR_SPACE c = (of_char c \<le> (32::nat))"

text \<open>\<^verbatim>\<open>_UNSAFE_URL_BYTES_TO_REMOVE\<close>: tab, carriage return, line feed.\<close>

definition UNSAFE_URL_BYTES_TO_REMOVE :: string where
  "UNSAFE_URL_BYTES_TO_REMOVE = [CHR 0x09, CHR 0x0D, CHR 0x0A]"

text \<open>\<^verbatim>\<open>str.lower\<close> on the characters of a scheme, which are ASCII.\<close>

definition ascii_lower :: "char \<Rightarrow> char" where
  "ascii_lower c =
     (case map_of (zip ''ABCDEFGHIJKLMNOPQRSTUVWXYZ'' ''abcdefghijklmnopqrstuvwxyz'') c of
        Some l \<Rightarrow> l
      | None \<Rightarrow> c)"

text \<open>
  The scheme step of \<^verbatim>\<open>urlsplit\<close>: \<^verbatim>\<open>i = url.find(':')\<close>; when \<open>i > 0\<close>, the first
  character is an ASCII letter and every character before the colon is a scheme
  character, the scheme is cut off.
\<close>

definition split_scheme :: "string \<Rightarrow> string \<times> string" where
  "split_scheme url =
     (if CHR '':'' \<in> set url \<and> before_first CHR '':'' url \<noteq> []
         \<and> hd url \<in> set ascii_letters
         \<and> list_all (\<lambda>c. c \<in> set scheme_chars) (before_first CHR '':'' url)
      then (map ascii_lower (before_first CHR '':'' url), after_first CHR '':'' url)
      else ('''', url))"

text \<open>\<^verbatim>\<open>_splitnetloc(url, 2)\<close>: the network location ends at the first of \<^verbatim>\<open>/ ? #\<close>.\<close>

definition splitnetloc2 :: "string \<Rightarrow> string \<times> string" where
  "splitnetloc2 url =
     (takeWhile (\<lambda>c. c \<notin> set ''/?#'') (drop 2 url),
      dropWhile (\<lambda>c. c \<notin> set ''/?#'') (drop 2 url))"

text \<open>
  \<^verbatim>\<open>_check_bracketed_host\<close>: \<open>True\<close> where it returns, \<open>False\<close> where it raises
  \<^verbatim>\<open>ValueError\<close>. An IPvFuture host is \<^verbatim>\<open>v\<close>, hexadecimal digits, a dot and at
  least one more character.
\<close>

definition check_bracketed_host :: "stdlib \<Rightarrow> string \<Rightarrow> bool" where
  "check_bracketed_host L hostname =
     (if prefix ''v'' hostname
      then (let digits = takeWhile (\<lambda>c. c \<in> set hexdigits) (drop 1 hostname);
                rest = dropWhile (\<lambda>c. c \<in> set hexdigits) (drop 1 hostname)
            in digits \<noteq> [] \<and> prefix ''.'' rest \<and> drop 1 rest \<noteq> [])
      else (case ip_address L hostname of
              None \<Rightarrow> False
            | Some IPv4Address \<Rightarrow> False
            | Some IPv6Address \<Rightarrow> True))"

text \<open>\<^verbatim>\<open>_checknetloc\<close>: \<open>True\<close> where it returns, \<open>False\<close> where it raises.\<close>

definition checknetloc :: "stdlib \<Rightarrow> string \<Rightarrow> bool" where
  "checknetloc L netloc =
     (if netloc = [] \<or> list_all isascii netloc then True
      else
        let n = filter (\<lambda>c. c \<notin> set ''@:#?'') netloc;
            netloc2 = nfkc L n
        in if n = netloc2 then True
           else list_all (\<lambda>c. c \<notin> set netloc2) ''/?#@:'')"

record SplitResult =
  sr_scheme :: string
  sr_netloc :: string
  sr_path :: string
  sr_query :: string
  sr_fragment :: string

definition urlsplit :: "stdlib \<Rightarrow> string \<Rightarrow> exn + SplitResult" where
  "urlsplit L url0 =
     (let url1 = dropWhile WHATWG_C0_CONTROL_OR_SPACE url0;
          url2 = filter (\<lambda>c. c \<notin> set UNSAFE_URL_BYTES_TO_REMOVE) url1;
          (scheme, url3) = split_scheme url2;
          (netloc, url4) = (if take 2 url3 = ''//'' then splitnetloc2 url3 else ('''', url3))
      in if take 2 url3 = ''//''
            \<and> ((CHR ''['' \<in> set netloc \<and> CHR '']'' \<notin> set netloc)
                \<or> (CHR '']'' \<in> set netloc \<and> CHR ''['' \<notin> set netloc))
         then Inl ValueError
         else if take 2 url3 = ''//'' \<and> CHR ''['' \<in> set netloc \<and> CHR '']'' \<in> set netloc
                 \<and> \<not> check_bracketed_host L
                       (before_first CHR '']'' (after_first CHR ''['' netloc))
         then Inl ValueError
         else
           let (url5, fragment) =
                 (if CHR ''#'' \<in> set url4
                  then (before_first CHR ''#'' url4, after_first CHR ''#'' url4)
                  else (url4, ''''));
               (url6, query) =
                 (if CHR ''?'' \<in> set url5
                  then (before_first CHR ''?'' url5, after_first CHR ''?'' url5)
                  else (url5, ''''))
           in if \<not> checknetloc L netloc then Inl ValueError
              else Inr \<lparr> sr_scheme = scheme, sr_netloc = netloc, sr_path = url6,
                         sr_query = query, sr_fragment = fragment \<rparr>)"

text \<open>
  \<^verbatim>\<open>_splitparams\<close>, called when the path holds a semicolon: the parameters start at
  the first semicolon of the last path segment.
\<close>

definition splitparams :: "string \<Rightarrow> string \<times> string" where
  "splitparams url =
     (if CHR ''/'' \<in> set url
      then (let head = rev (drop 1 (dropWhile (\<lambda>c. c \<noteq> CHR ''/'') (rev url)));
                tail = CHR ''/'' # rev (takeWhile (\<lambda>c. c \<noteq> CHR ''/'') (rev url))
            in if CHR '';'' \<in> set tail
               then (head @ before_first CHR '';'' tail, after_first CHR '';'' tail)
               else (url, ''''))
      else (before_first CHR '';'' url, after_first CHR '';'' url))"

record ParseResult =
  pr_scheme :: string
  pr_netloc :: string
  pr_path :: string
  pr_params :: string
  pr_query :: string
  pr_fragment :: string

definition urlparse :: "stdlib \<Rightarrow> string \<Rightarrow> exn + ParseResult" where
  "urlparse L url =
     (case urlsplit L url of
        Inl e \<Rightarrow> Inl e
      | Inr r \<Rightarrow>
          let (url', params) =
                (if sr_scheme r \<in> set uses_params \<and> CHR '';'' \<in> set (sr_path r)
                 then splitparams (sr_path r)
                 else (sr_path r, ''''))
          in Inr \<lparr> pr_scheme = sr_scheme r, pr_netloc = sr_netloc r, pr_path = url',
                    pr_params = params, pr_query = sr_query r,
                    pr_fragment = sr_fragment r \<rparr>)"

subsection \<open>Decoding a query string: \<^verbatim>\<open>parse_qsl\<close>\<close>

definition hexval :: "char \<Rightarrow> nat option" where
  "hexval c =
     map_of (zip ''0123456789ABCDEFabcdef''
                 [0, 1, 2, 3, 4, 5, 6, 7, 8, 9, 10, 11, 12, 13, 14, 15, 10, 11, 12, 13, 14, 15]) c"

text \<open>
  One item of \<^verbatim>\<open>string.split(b'%')\<close> after the first, in \<^verbatim>\<open>unquote_to_bytes\<close>: two
  leading hexadecimal digits become one byte; otherwise the percent sign is put back.
\<close>

definition unquote_item :: "string \<Rightarrow> string" where
  "unquote_item item =
     (case item of
        a # b # rest \<Rightarrow>
          (case (hexval a, hexval b) of
             (Some h, Some l) \<Rightarrow> char_of (16 * h + l) # rest
           | _ \<Rightarrow> CHR ''%'' # item)
      | _ \<Rightarrow> CHR ''%'' # item)"

definition unquote_to_bytes :: "string \<Rightarrow> string" where
  "unquote_to_bytes s =
     (if s = [] then []
      else case splits ''%'' [] s of
             [] \<Rightarrow> s
           | [b] \<Rightarrow> s
           | b # items \<Rightarrow> b @ concat (map unquote_item items))"

text \<open>
  \<^verbatim>\<open>unquote\<close> of a \<^verbatim>\<open>str\<close>: each maximal run of ASCII characters is unquoted to
  bytes and decoded; the text between the runs is kept.
\<close>

function unquote_runs :: "stdlib \<Rightarrow> string \<Rightarrow> string" where
  "unquote_runs L [] = []"
| "unquote_runs L (c # cs) =
     (if isascii c
      then utf8_replace L (unquote_to_bytes (c # takeWhile isascii cs))
             @ unquote_runs L (dropWhile isascii cs)
      else (c # takeWhile (\<lambda>x. \<not> isascii x) cs)
             @ unquote_runs L (dropWhile (\<lambda>x. \<not> isascii x) cs))"
  by pat_completeness auto
termination
  by (relation "measure (\<lambda>(L, s). length s)") (auto simp: length_dropWhile_le less_Suc_eq_le)

definition unquote :: "stdlib \<Rightarrow> string \<Rightarrow> string" where
  "unquote L s = (if CHR ''%'' \<notin> set s then s else unquote_runs L s)"

definition unquote_plus :: "stdlib \<Rightarrow> string \<Rightarrow> string" where
  "unquote_plus L s = unquote L (map (\<lambda>c. if c = CHR ''+'' then CHR '' '' else c) s)"

text \<open>
  \<^verbatim>\<open>parse_qsl(qs)\<close> with its defaults (\<^verbatim>\<open>keep_blank_values=False\<close>,
  \<^verbatim>\<open>strict_parsing=False\<close>, separator \<^verbatim>\<open>&\<close>): a field is kept when the text after its
  first \<^verbatim>\<open>=\<close> is not empty.
\<close>

definition parse_qsl :: "stdlib \<Rightarrow> string \<Rightarrow> (string \<times> string) list" where
  "parse_qsl L qs =
     (if qs = [] then []
      else concat (map (\<lambda>name_value.
             if name_value \<noteq> [] \<and> after_first CHR ''='' name_value \<noteq> []
             then [(unquote_plus L (before_first CHR ''='' name_value),
                    unquote_plus L (after_first CHR ''='' name_value))]
             else [])
           (splits ''&'' [] qs)))"

text \<open>
  \<^verbatim>\<open>dict(pairs)\<close>, in insertion order: a key that comes again keeps its place and
  takes the later value.
\<close>

definition dict :: "(string \<times> string) list \<Rightarrow> (string \<times> string) list" where
  "dict pairs = foldl (\<lambda>d (k, v). AList.update k v d) [] pairs"

subsection \<open>Encoding a query: \<^verbatim>\<open>urlencode\<close>\<close>

definition ALWAYS_SAFE :: string where
  "ALWAYS_SAFE = ''ABCDEFGHIJKLMNOPQRSTUVWXYZabcdefghijklmnopqrstuvwxyz0123456789_.-~''"

definition hex2 :: "char \<Rightarrow> string" where
  "hex2 b = [''0123456789ABCDEF'' ! (of_char b div 16), ''0123456789ABCDEF'' ! (of_char b mod 16)]"

text \<open>\<^verbatim>\<open>quote(string, safe)\<close>: every byte outside the safe sets becomes \<^verbatim>\<open>%XX\<close>.\<close>

definition quote :: "string \<Rightarrow> string \<Rightarrow> string" where
  "quote s safe =
     concat (map (\<lambda>b. if b \<in> set ALWAYS_SAFE \<or> b \<in> set (filter isascii safe)
                       then [b] else CHR ''%'' # hex2 b) s)"

definition quote_plus :: "string \<Rightarrow> string" where
  "quote_plus s =
     (if CHR '' '' \<notin> set s then quote s ''''
      else map (\<lambda>c. if c = CHR '' '' then CHR ''+'' else c) (quote s '' ''))"

fun join :: "string \<Rightarrow> string list \<Rightarrow> string" where
  "join sep [] = []"
| "join sep [x] = x"
| "join sep (x # y # ys) = x @ sep @ join sep (y # ys)"

definition urlencode :: "(string \<times> string) list \<Rightarrow> string" where
  "urlencode query = join ''&'' (map (\<lambda>(k, v). quote_plus k @ ''='' @ quote_plus v) query)"

section \<open>The class DIDUrl of \<^verbatim>\<open>src/pydid/did_url.py\<close>\<close>

text \<open>
  \<^verbatim>\<open>class DIDUrl(str)\<close>: the string value of the object, \<open>url_str\<close>, and the attributes
  set by the constructor. The query is an ordered dictionary, kept as an association
  list with distinct keys.
\<close>

record DIDUrl =
  url_str :: string
  did :: "string option"
  path :: "string option"
  query :: "(string \<times> string) list option"
  fragment :: "string option"

text \<open>
  Lines 26 to 38 of the constructor: the DID and the url component, or the exception
  raised. \<^verbatim>\<open>_, url_component = url.split(self.did)\<close> raises \<^verbatim>\<open>ValueError\<close> unless the
  split has exactly two parts.
\<close>

definition did_and_component :: "string \<Rightarrow> exn + (string option \<times> string)" where
  "did_and_component url =
     (case DID_URL_DID_PART_PATTERN url of
        Some d \<Rightarrow>
          (case py_split url d of
             Inl e \<Rightarrow> Inl e
           | Inr [a, url_component] \<Rightarrow> Inr (Some d, url_component)
           | Inr parts \<Rightarrow> Inl ValueError)
      | None \<Rightarrow>
          if \<not> DID_URL_RELATIVE_FRONT url
          then Inl (InvalidDIDUrlError (url @ '' is not a valid absolute or relative DID URL''))
          else Inr (None, url))"

text \<open>
  \<^verbatim>\<open>DIDUrl(url)\<close>: the string value is \<open>url\<close>; matching a pattern against a value that
  is not a string raises \<^verbatim>\<open>TypeError\<close>.
\<close>

definition DIDUrl_init :: "stdlib \<Rightarrow> pyval \<Rightarrow> exn + DIDUrl" where
  "DIDUrl_init L url =
     (case url of
        PyStr s \<Rightarrow>
          (case did_and_component s of
             Inl e \<Rightarrow> Inl e
           | Inr (d, url_component) \<Rightarrow>
               (case urlparse L url_component of
                  Inl e \<Rightarrow> Inl e
                | Inr parts \<Rightarrow>
                    Inr \<lparr> url_str = s,
                          did = d,
                          path = (if pr_path parts \<noteq> [] then Some (pr_path parts) else None),
                          query = (if pr_query parts \<noteq> []
                                   then Some (dict (parse_qsl L (pr_query parts))) else None),
                          fragment = (if pr_fragment parts \<noteq> []
                                      then Some (pr_fragment parts) else None) \<rparr>))
      | PyNone \<Rightarrow> Inl TypeError
      | PyInt n \<Rightarrow> Inl TypeError)"

definition parse :: "stdlib \<Rightarrow> pyval \<Rightarrow> exn + DIDUrl" where
  "parse L url = DIDUrl_init L url"

definition unparse ::
  "stdlib \<Rightarrow> string \<Rightarrow> string option \<Rightarrow> (string \<times> string) list option \<Rightarrow> pyval
     \<Rightarrow> exn + DIDUrl" where
  "unparse L did0 path0 query0 fragment0 =
     (let value0 = did0;
          path1 = (case path0 of
                     Some p \<Rightarrow> if p \<noteq> [] \<and> \<not> prefix ''/'' p then Some (''/'' @ p) else Some p
                   | None \<Rightarrow> None);
          value1 = (case path1 of
                      Some p \<Rightarrow> if p \<noteq> [] then value0 @ p else value0
                    | None \<Rightarrow> value0);
          value2 = (case query0 of
                      Some q \<Rightarrow> if q \<noteq> [] then value1 @ ''?'' @ urlencode q else value1
                    | None \<Rightarrow> value1);
          fragment1 = (if truthy fragment0 then Some (py_str fragment0) else None);
          value3 = (case fragment1 of
                      Some f \<Rightarrow> if f \<noteq> [] then value2 @ ''#'' @ f else value2
                    | None \<Rightarrow> value2)
      in DIDUrl_init L (PyStr value3))"

text \<open>An attribute that is a string or \<^verbatim>\<open>None\<close>, as a Python value.\<close>

definition py_of_opt :: "string option \<Rightarrow> pyval" where
  "py_of_opt x = (case x of None \<Rightarrow> PyNone | Some s \<Rightarrow> PyStr s)"

definition as_absolute :: "stdlib \<Rightarrow> DIDUrl \<Rightarrow> string \<Rightarrow> exn + DIDUrl" where
  "as_absolute L self did0 = unparse L did0 (path self) (query self) (py_of_opt (fragment self))"

definition validate :: "stdlib \<Rightarrow> pyval \<Rightarrow> exn + DIDUrl" where
  "validate L url = parse L url"

text \<open>
  \<^verbatim>\<open>is_valid\<close>: \<^verbatim>\<open>except ValueError\<close> turns a \<^verbatim>\<open>ValueError\<close> (and any subclass) into
  \<open>False\<close>; any other exception leaves the function.
\<close>

definition is_valid :: "stdlib \<Rightarrow> pyval \<Rightarrow> exn + bool" where
  "is_valid L url =
     (case validate L url of
        Inl e \<Rightarrow> if isinstance_ValueError e then Inr False else Inl e
      | Inr v \<Rightarrow> Inr True)"

section \<open>Properties of the split and of the patterns\<close>

lemma splits_not_Nil: "splits sep cur t \<noteq> []"
  by (induction sep cur t rule: splits.induct) auto

lemma splits_single: "splits sep cur t = [x] \<Longrightarrow> x = cur @ t"
proof (induction sep cur t rule: splits.induct)
  case (1 sep cur)
  then show ?case by simp
next
  case (2 sep cur c cs)
  show ?case
  proof (cases "sep \<noteq> [] \<and> prefix sep (c # cs)")
    case True
    with "2.prems" have "splits sep [] (drop (length sep) (c # cs)) = []" by simp
    then show ?thesis by (simp add: splits_not_Nil)
  next
    case False
    with "2.prems" have "splits sep (cur @ [c]) cs = [x]" by auto
    with "2.IH"(2) False have "x = (cur @ [c]) @ cs" by blast
    then show ?thesis by simp
  qed
qed

lemma splits_at_sep: "sep \<noteq> [] \<Longrightarrow> splits sep cur (sep @ r) = cur # splits sep [] r"
  by (cases sep) auto

lemma splits_occurrence: "sep \<noteq> [] \<Longrightarrow> 2 \<le> length (splits sep cur (x @ sep @ y))"
proof (induction x arbitrary: cur)
  case Nil
  then show ?case
    using splits_not_Nil [of sep "[]" y] by (cases "splits sep [] y") (auto simp: splits_at_sep)
next
  case (Cons a x)
  show ?case
  proof (cases "prefix sep (a # x @ sep @ y)")
    case True
    with Cons.prems show ?thesis
      using splits_not_Nil [of sep "[]" "drop (length sep) (a # x @ sep @ y)"]
      by (cases "splits sep [] (drop (length sep) (a # x @ sep @ y))") auto
  next
    case False
    with Cons show ?thesis by simp
  qed
qed

lemma method_chars_subset:
  "set ''abcdefghijklmnopqrstuvwxyz0123456789''
     \<subseteq> set ''abcdefghijklmnopqrstuvwxyzABCDEFGHIJKLMNOPQRSTUVWXYZ0123456789.-_:''"
  by simp

lemma method_char_idchar: "method_char c \<Longrightarrow> idchar c"
  unfolding method_char_def idchar_def using method_chars_subset by (rule subsetD)

lemma idchar_did: "idchar CHR ''d''" "idchar CHR ''i''" "idchar CHR '':''"
  by (simp_all add: idchar_def)

text \<open>
  A match of the DID pattern is a non-empty prefix of the input made of identifier
  characters, and the input goes on, if at all, with another character.
\<close>

lemma DID_pattern_shape:
  assumes "DID_URL_DID_PART_PATTERN s = Some d"
  shows "\<exists>r. s = d @ r \<and> d \<noteq> [] \<and> list_all idchar d \<and> (r = [] \<or> \<not> idchar (hd r))"
proof -
  define rest where "rest = drop 4 s"
  define meth where "meth = takeWhile method_char rest"
  define rest' where "rest' = dropWhile method_char rest"
  define ident where "ident = takeWhile idchar (drop 1 rest')"
  define r where "r = dropWhile idchar (drop 1 rest')"
  from assms have pre: "prefix ''did:'' s" and colon: "take 1 rest' = '':''"
    and d: "d = ''did:'' @ meth @ '':'' @ ident"
    by (auto simp: DID_URL_DID_PART_PATTERN_def Let_def rest_def meth_def rest'_def ident_def
        split: if_splits)
  from pre have s1: "s = ''did:'' @ rest"
    by (auto simp: rest_def prefix_def)
  have s2: "rest = meth @ rest'"
    by (simp add: meth_def rest'_def)
  from colon have s3: "rest' = '':'' @ drop 1 rest'"
    by (metis append_take_drop_id)
  have s4: "drop 1 rest' = ident @ r"
    by (simp add: ident_def r_def)
  have "s = d @ r"
    using s1 s2 s3 s4 d by (metis append.assoc)
  moreover have "d \<noteq> []" using d by simp
  moreover have "list_all idchar meth"
    unfolding meth_def list_all_iff using method_char_idchar
    by (auto dest: set_takeWhileD)
  then have "list_all idchar d"
    unfolding d ident_def list_all_iff by (auto simp: idchar_did dest: set_takeWhileD)
  moreover have "r = [] \<or> \<not> idchar (hd r)"
    unfolding r_def by (metis hd_dropWhile)
  ultimately show ?thesis by blast
qed

text \<open>
  A second occurrence of the matched DID cannot overlap the first one: the character
  after the match is not an identifier character, every character of the DID is.
\<close>

lemma second_occurrence_disjoint:
  assumes eq: "d @ r = a @ d @ b" and a: "a \<noteq> []"
    and d: "list_all idchar d" and r: "r = [] \<or> \<not> idchar (hd r)"
  shows "\<exists>a'. r = a' @ d @ b"
proof -
  from eq have "\<exists>u. d = a @ u \<and> u @ r = d @ b \<or> d @ u = a \<and> r = u @ d @ b"
    by (rule iffD1 [OF append_eq_append_conv2])
  then consider u where "d = a @ u" "u @ r = d @ b" | u where "d @ u = a" "r = u @ d @ b"
    by blast
  then show ?thesis
  proof cases
    case 1
    from 1(2) have "\<exists>w. u = d @ w \<and> w @ r = b \<or> u @ w = d \<and> r = w @ b"
      by (rule iffD1 [OF append_eq_append_conv2])
    then consider w where "u = d @ w" | w where "u @ w = d" "r = w @ b"
      by blast
    then show ?thesis
    proof cases
      case 1
      have "length d = length a + length u" using \<open>d = a @ u\<close> by (metis length_append)
      moreover have "length u = length d + length w" using 1 by simp
      ultimately have "length a = 0" by arith
      with a show ?thesis by simp
    next
      case 2
      show ?thesis
      proof (cases w)
        case Nil
        from 2 Nil have "u = d" by simp
        with \<open>d = a @ u\<close> have "length d = length a + length d" by (metis length_append)
        with a show ?thesis by simp
      next
        case (Cons c w')
        with 2 have "hd r = c" and "r \<noteq> []" and "c \<in> set d" by auto
        with d r show ?thesis by (simp add: list_all_iff)
      qed
    qed
  next
    case 2
    then show ?thesis by blast
  qed
qed

lemma repeated_did_parts:
  assumes m: "DID_URL_DID_PART_PATTERN s = Some d" and s: "s = a @ d @ b" and a: "a \<noteq> []"
  shows "d \<noteq> [] \<and> (\<exists>x y zs. splits d [] s = [] # x # y # zs)"
proof -
  from DID_pattern_shape [OF m] obtain r where
    r: "s = d @ r" "d \<noteq> []" "list_all idchar d" "r = [] \<or> \<not> idchar (hd r)" by blast
  from second_occurrence_disjoint [of d r a b] r s a obtain a' where a': "r = a' @ d @ b"
    by metis
  have "2 \<le> length (splits d [] r)"
    unfolding a' using splits_occurrence [OF r(2)] .
  then obtain x y zs where "splits d [] r = x # y # zs"
    by (cases "splits d [] r"; cases "tl (splits d [] r)") auto
  then have "splits d [] s = [] # x # y # zs"
    using r by (simp add: splits_at_sep)
  with r(2) show ?thesis by blast
qed

lemma DIDUrl_init_url_str: "DIDUrl_init L (PyStr s) = Inr v \<Longrightarrow> url_str v = s"
  by (auto simp: DIDUrl_init_def split: sum.splits prod.splits)

section \<open>What the constructor takes from \<^verbatim>\<open>urlparse\<close>\<close>

lemma after_first_skip: "c \<notin> set a \<Longrightarrow> after_first c (a @ b) = after_first c b"
  unfolding after_first_def by (subst dropWhile_append2) auto

lemma before_first_skip: "c \<notin> set a \<Longrightarrow> before_first c (a @ b) = a @ before_first c b"
  unfolding before_first_def by (subst takeWhile_append2) auto

lemma after_first_absent: "c \<notin> set s \<Longrightarrow> after_first c s = []"
proof -
  assume "c \<notin> set s"
  then have "dropWhile (\<lambda>x. x \<noteq> c) s = []" by auto
  then show ?thesis unfolding after_first_def by (simp only: drop_Nil)
qed

lemma before_first_absent: "c \<notin> set s \<Longrightarrow> before_first c s = s"
  by (auto simp: before_first_def)

lemma split_at_first: "c \<in> set s \<Longrightarrow> s = before_first c s @ c # after_first c s"
proof -
  assume "c \<in> set s"
  then have "dropWhile (\<lambda>x. x \<noteq> c) s \<noteq> []" by simp
  then obtain y ys where d: "dropWhile (\<lambda>x. x \<noteq> c) s = y # ys"
    by (cases "dropWhile (\<lambda>x. x \<noteq> c) s") auto
  with hd_dropWhile [of "\<lambda>x. x \<noteq> c" s] have "y = c" by simp
  have "s = takeWhile (\<lambda>x. x \<noteq> c) s @ dropWhile (\<lambda>x. x \<noteq> c) s" by simp
  with d \<open>y = c\<close> show ?thesis
    by (simp add: before_first_def after_first_def)
qed

lemma before_first_no_c: "c \<notin> set (before_first c s)"
  by (auto simp: before_first_def dest: set_takeWhileD)

text \<open>Stage 1: stripping leading control characters and removing tab, CR, LF.\<close>

lemma c0_not_delim:
  "WHATWG_C0_CONTROL_OR_SPACE c \<Longrightarrow> c \<noteq> CHR ''#'' \<and> c \<noteq> CHR ''?''"
  by (auto simp: WHATWG_C0_CONTROL_OR_SPACE_def)

lemma lstrip_shape:
  "\<exists>p. filter P u = p @ filter P (dropWhile WHATWG_C0_CONTROL_OR_SPACE u)
       \<and> CHR ''#'' \<notin> set p \<and> CHR ''?'' \<notin> set p"
proof -
  have "filter P u = filter P (takeWhile WHATWG_C0_CONTROL_OR_SPACE u)
          @ filter P (dropWhile WHATWG_C0_CONTROL_OR_SPACE u)"
    by (metis filter_append takeWhile_dropWhile_id)
  moreover have "CHR ''#'' \<notin> set (filter P (takeWhile WHATWG_C0_CONTROL_OR_SPACE u))"
    using c0_not_delim by (auto dest: set_takeWhileD)
  moreover have "CHR ''?'' \<notin> set (filter P (takeWhile WHATWG_C0_CONTROL_OR_SPACE u))"
    using c0_not_delim by (auto dest: set_takeWhileD)
  ultimately show ?thesis by blast
qed

text \<open>Stage 2: the scheme.\<close>

lemma scheme_chars_not_delim: "CHR ''#'' \<notin> set scheme_chars" "CHR ''?'' \<notin> set scheme_chars"
  by (simp_all add: scheme_chars_def)

lemma split_scheme_shape:
  assumes "split_scheme w = (sc, w')"
  shows "\<exists>p. w = p @ w' \<and> CHR ''#'' \<notin> set p \<and> CHR ''?'' \<notin> set p"
proof (cases "CHR '':'' \<in> set w \<and> before_first CHR '':'' w \<noteq> []
         \<and> hd w \<in> set ascii_letters
         \<and> list_all (\<lambda>c. c \<in> set scheme_chars) (before_first CHR '':'' w)")
  case True
  with assms have w': "w' = after_first CHR '':'' w"
    by (simp add: split_scheme_def)
  from True have "w = (before_first CHR '':'' w @ '':'') @ w'"
    unfolding w' using split_at_first [of "CHR '':''" w] by simp
  moreover from True have "CHR ''#'' \<notin> set (before_first CHR '':'' w @ '':'')"
    using scheme_chars_not_delim by (auto simp: list_all_iff)
  moreover from True have "CHR ''?'' \<notin> set (before_first CHR '':'' w @ '':'')"
    using scheme_chars_not_delim by (auto simp: list_all_iff)
  ultimately show ?thesis by blast
next
  case False
  with assms have "w' = w" by (auto simp: split_scheme_def)
  then show ?thesis by simp
qed

text \<open>Stage 3: the network location.\<close>

lemma splitnetloc2_shape:
  assumes "take 2 w = ''//''" and "splitnetloc2 w = (n, w')"
  shows "\<exists>p. w = p @ w' \<and> CHR ''#'' \<notin> set p \<and> CHR ''?'' \<notin> set p"
proof -
  from assms(2) have n: "n = takeWhile (\<lambda>c. c \<notin> set ''/?#'') (drop 2 w)"
    and w': "w' = dropWhile (\<lambda>c. c \<notin> set ''/?#'') (drop 2 w)"
    by (simp_all add: splitnetloc2_def)
  have "w = take 2 w @ drop 2 w" by simp
  also have "drop 2 w = n @ w'" by (simp add: n w')
  finally have "w = (''//'' @ n) @ w'" using assms(1) by simp
  moreover have "CHR ''#'' \<notin> set (''//'' @ n)" "CHR ''?'' \<notin> set (''//'' @ n)"
    by (auto simp: n dest: set_takeWhileD)
  ultimately show ?thesis by blast
qed

lemma urlsplit_shape:
  assumes "urlsplit L u = Inr r"
  shows "\<exists>p x. filter (\<lambda>c. c \<notin> set UNSAFE_URL_BYTES_TO_REMOVE) u = p @ x
           \<and> CHR ''#'' \<notin> set p \<and> CHR ''?'' \<notin> set p
           \<and> sr_fragment r = after_first CHR ''#'' x
           \<and> sr_query r = after_first CHR ''?'' (before_first CHR ''#'' x)"
proof -
  define P where "P = (\<lambda>c. c \<notin> set UNSAFE_URL_BYTES_TO_REMOVE)"
  define url2 where "url2 = filter P (dropWhile WHATWG_C0_CONTROL_OR_SPACE u)"
  obtain scheme url3 where sc: "split_scheme url2 = (scheme, url3)" by (cases "split_scheme url2")
  define url4 where "url4 = (if take 2 url3 = ''//'' then snd (splitnetloc2 url3) else url3)"
  from lstrip_shape [of P u] obtain p0 where
    p0: "filter P u = p0 @ url2" "CHR ''#'' \<notin> set p0" "CHR ''?'' \<notin> set p0"
    unfolding url2_def by blast
  from split_scheme_shape [OF sc] obtain p1 where
    p1: "url2 = p1 @ url3" "CHR ''#'' \<notin> set p1" "CHR ''?'' \<notin> set p1" by blast
  have "\<exists>p2. url3 = p2 @ url4 \<and> CHR ''#'' \<notin> set p2 \<and> CHR ''?'' \<notin> set p2"
  proof (cases "take 2 url3 = ''//''")
    case True
    then show ?thesis
      using splitnetloc2_shape [of url3 "fst (splitnetloc2 url3)" "snd (splitnetloc2 url3)"]
      by (simp add: url4_def)
  next
    case False
    then show ?thesis by (simp add: url4_def)
  qed
  then obtain p2 where
    p2: "url3 = p2 @ url4" "CHR ''#'' \<notin> set p2" "CHR ''?'' \<notin> set p2" by blast
  have frag: "sr_fragment r = after_first CHR ''#'' url4"
    and qry: "sr_query r = after_first CHR ''?'' (before_first CHR ''#'' url4)"
    using assms sc
    by (auto simp: urlsplit_def Let_def url2_def P_def url4_def after_first_absent
        before_first_absent split: if_splits prod.splits)
  have "filter P u = (p0 @ p1 @ p2) @ url4"
    using p0(1) p1(1) p2(1) by simp
  moreover have "CHR ''#'' \<notin> set (p0 @ p1 @ p2)" "CHR ''?'' \<notin> set (p0 @ p1 @ p2)"
    using p0 p1 p2 by auto
  ultimately show ?thesis
    using frag qry unfolding P_def by blast
qed


lemma not_idchar:
  "\<not> idchar CHR ''#''" "\<not> idchar CHR ''?''"
  "\<not> idchar (CHR 0x09)" "\<not> idchar (CHR 0x0D)" "\<not> idchar (CHR 0x0A)"
  by (simp_all add: idchar_def)

lemma idchar_not_special:
  "idchar c \<Longrightarrow> c \<noteq> CHR ''#'' \<and> c \<noteq> CHR ''?'' \<and> c \<notin> set UNSAFE_URL_BYTES_TO_REMOVE"
  using not_idchar by (auto simp: UNSAFE_URL_BYTES_TO_REMOVE_def)

lemma did_and_component_shape:
  assumes "did_and_component s = Inr (d, uc)"
  shows "\<exists>p. s = p @ uc \<and> CHR ''#'' \<notin> set p \<and> CHR ''?'' \<notin> set p
           \<and> filter (\<lambda>c. c \<notin> set UNSAFE_URL_BYTES_TO_REMOVE) p = p"
proof (cases "DID_URL_DID_PART_PATTERN s")
  case None
  with assms have "uc = s"
    by (simp add: did_and_component_def split: if_splits)
  then show ?thesis by simp
next
  case (Some d0)
  from DID_pattern_shape [OF Some] obtain r where
    r: "s = d0 @ r" "d0 \<noteq> []" "list_all idchar d0" by blast
  from assms Some r(2) obtain a where "splits d0 [] s = [a, uc]"
    by (auto simp: did_and_component_def py_split_def split: list.splits)
  with r have "splits d0 [] r = [uc]"
    by (simp add: splits_at_sep)
  then have "uc = r" using splits_single by fastforce
  with r(1) have "s = d0 @ uc" by simp
  moreover from r(3) have "CHR ''#'' \<notin> set d0" "CHR ''?'' \<notin> set d0"
    using idchar_not_special by (auto simp: list_all_iff)
  moreover from r(3) have "filter (\<lambda>c. c \<notin> set UNSAFE_URL_BYTES_TO_REMOVE) d0 = d0"
    unfolding filter_id_conv list_all_iff using idchar_not_special by blast
  ultimately show ?thesis by blast
qed

lemma parse_fragment_query:
  assumes "DIDUrl_init L (PyStr s) = Inr v"
  shows "fragment v =
           (if after_first CHR ''#'' (filter (\<lambda>c. c \<notin> set UNSAFE_URL_BYTES_TO_REMOVE) s) = []
            then None
            else Some (after_first CHR ''#''
                         (filter (\<lambda>c. c \<notin> set UNSAFE_URL_BYTES_TO_REMOVE) s)))"
    and "query v =
           (if after_first CHR ''?'' (before_first CHR ''#''
                 (filter (\<lambda>c. c \<notin> set UNSAFE_URL_BYTES_TO_REMOVE) s)) = []
            then None
            else Some (dict (parse_qsl L (after_first CHR ''?'' (before_first CHR ''#''
                 (filter (\<lambda>c. c \<notin> set UNSAFE_URL_BYTES_TO_REMOVE) s))))))"
proof -
  define P where "P = (\<lambda>c. c \<notin> set UNSAFE_URL_BYTES_TO_REMOVE)"
  from assms obtain d uc parts where
    dc: "did_and_component s = Inr (d, uc)" and up: "urlparse L uc = Inr parts"
    and fv: "fragment v = (if pr_fragment parts \<noteq> [] then Some (pr_fragment parts) else None)"
    and qv: "query v = (if pr_query parts \<noteq> []
                        then Some (dict (parse_qsl L (pr_query parts))) else None)"
    by (auto simp: DIDUrl_init_def split: sum.splits prod.splits)
  from up obtain r where us: "urlsplit L uc = Inr r"
    and pf: "pr_fragment parts = sr_fragment r" and pq: "pr_query parts = sr_query r"
    by (auto simp: urlparse_def Let_def split: sum.splits prod.splits)
  from did_and_component_shape [OF dc] obtain p where
    p: "s = p @ uc" "CHR ''#'' \<notin> set p" "CHR ''?'' \<notin> set p" "filter P p = p"
    unfolding P_def by blast
  from urlsplit_shape [OF us] obtain p' x where
    x: "filter P uc = p' @ x" "CHR ''#'' \<notin> set p'" "CHR ''?'' \<notin> set p'"
       "sr_fragment r = after_first CHR ''#'' x"
       "sr_query r = after_first CHR ''?'' (before_first CHR ''#'' x)"
    unfolding P_def by blast
  have fs: "filter P s = (p @ p') @ x"
    using p(1) p(4) x(1) by simp
  have np: "CHR ''#'' \<notin> set (p @ p')" "CHR ''?'' \<notin> set (p @ p')"
    using p x by auto
  have F: "after_first CHR ''#'' (filter P s) = sr_fragment r"
    unfolding fs x(4) using np(1) by (rule after_first_skip)
  have "before_first CHR ''#'' (filter P s) = (p @ p') @ before_first CHR ''#'' x"
    unfolding fs using np(1) by (rule before_first_skip)
  moreover have "after_first CHR ''?'' ((p @ p') @ before_first CHR ''#'' x)
      = after_first CHR ''?'' (before_first CHR ''#'' x)"
    using np(2) by (rule after_first_skip)
  ultimately have Q: "after_first CHR ''?'' (before_first CHR ''#'' (filter P s)) = sr_query r"
    unfolding x(5) by simp
  show "fragment v =
           (if after_first CHR ''#'' (filter (\<lambda>c. c \<notin> set UNSAFE_URL_BYTES_TO_REMOVE) s) = []
            then None
            else Some (after_first CHR ''#''
                         (filter (\<lambda>c. c \<notin> set UNSAFE_URL_BYTES_TO_REMOVE) s)))"
    using F fv pf unfolding P_def by simp
  show "query v =
           (if after_first CHR ''?'' (before_first CHR ''#''
                 (filter (\<lambda>c. c \<notin> set UNSAFE_URL_BYTES_TO_REMOVE) s)) = []
            then None
            else Some (dict (parse_qsl L (after_first CHR ''?'' (before_first CHR ''#''
                 (filter (\<lambda>c. c \<notin> set UNSAFE_URL_BYTES_TO_REMOVE) s))))))"
    using Q qv pq unfolding P_def by simp
qed

lemma decimal_not_Nil: "decimal n \<noteq> []"
  by (subst decimal.simps) simp

lemma truthy_py_str: "truthy f \<Longrightarrow> py_str f \<noteq> []"
  by (cases f) (simp_all add: decimal_not_Nil)

section \<open>The claims\<close>

text \<open>
  C3. For every input string that matches neither the DID-part pattern nor the
  relative-front pattern, \<open>parse\<close> raises \<open>InvalidDIDUrlError\<close>, and the message of the
  error contains the offending input string: the message is the input followed by
  a fixed text.
\<close>

theorem parse_neither_pattern_raises:
  assumes "DID_URL_DID_PART_PATTERN s = None" and "\<not> DID_URL_RELATIVE_FRONT s"
  shows "\<exists>msg. parse L (PyStr s) = Inl (InvalidDIDUrlError msg)
           \<and> msg = s @ '' is not a valid absolute or relative DID URL''
           \<and> sublist s msg"
  using assms by (simp add: parse_def DIDUrl_init_def did_and_component_def)

theorem parse_neither_pattern_raises_witness:
  "DID_URL_DID_PART_PATTERN ''not-a-did-at-all'' = None
   \<and> \<not> DID_URL_RELATIVE_FRONT ''not-a-did-at-all''
   \<and> parse ascii_stdlib (PyStr ''not-a-did-at-all'') =
       Inl (InvalidDIDUrlError ''not-a-did-at-all is not a valid absolute or relative DID URL'')"
proof -
  have h1: "DID_URL_DID_PART_PATTERN ''not-a-did-at-all'' = None"
    by (simp add: DID_URL_DID_PART_PATTERN_def)
  have h2: "\<not> DID_URL_RELATIVE_FRONT ''not-a-did-at-all''"
    by (simp add: DID_URL_RELATIVE_FRONT_def)
  from parse_neither_pattern_raises [OF h1 h2, of ascii_stdlib] h1 h2 show ?thesis
    by simp
qed

lemmas model_defs =
  parse_def validate_def is_valid_def DIDUrl_init_def did_and_component_def
  DID_URL_DID_PART_PATTERN_def DID_URL_RELATIVE_FRONT_def Let_def method_char_def idchar_def
  py_split_def urlparse_def urlsplit_def split_scheme_def before_first_def after_first_def
  WHATWG_C0_CONTROL_OR_SPACE_def UNSAFE_URL_BYTES_TO_REMOVE_def checknetloc_def
  uses_params_def unparse_def as_absolute_def py_of_opt_def

text \<open>
  C8. \<open>is_valid\<close> returns true exactly when \<open>parse\<close> succeeds; it returns false when
  \<open>parse\<close> raises \<open>InvalidDIDUrlError\<close> or a plain \<open>ValueError\<close>; an exception of
  any other kind is not turned into false: it leaves \<open>is_valid\<close> as it is.
\<close>

theorem is_valid_reflects_parse:
  "(is_valid L url = Inr True \<longleftrightarrow> (\<exists>v. parse L url = Inr v))
   \<and> (parse L url = Inl (InvalidDIDUrlError msg) \<longrightarrow> is_valid L url = Inr False)
   \<and> (parse L url = Inl ValueError \<longrightarrow> is_valid L url = Inr False)
   \<and> (parse L url = Inl e \<and> \<not> isinstance_ValueError e \<longrightarrow> is_valid L url = Inl e)"
  by (auto simp: is_valid_def validate_def split: sum.splits)

theorem is_valid_reflects_parse_witness:
  "is_valid ascii_stdlib (PyStr ''/some/path'') = Inr True
   \<and> is_valid ascii_stdlib (PyStr ''not-a-did-at-all'') = Inr False
   \<and> is_valid ascii_stdlib (PyStr ''did:example:123/did:example:123'') = Inr False
   \<and> is_valid ascii_stdlib (PyInt 5) = Inl TypeError"
proof -
  have p1: "\<exists>v. parse ascii_stdlib (PyStr ''/some/path'') = Inr v"
    by (simp add: model_defs)
  have p2: "parse ascii_stdlib (PyStr ''not-a-did-at-all'') =
      Inl (InvalidDIDUrlError ''not-a-did-at-all is not a valid absolute or relative DID URL'')"
    by (simp add: model_defs)
  have p3: "parse ascii_stdlib (PyStr ''did:example:123/did:example:123'') = Inl ValueError"
    by (simp add: model_defs)
  have p4: "parse ascii_stdlib (PyInt 5) = Inl TypeError
      \<and> \<not> isinstance_ValueError TypeError"
    by (simp add: model_defs)
  from p1 have "is_valid ascii_stdlib (PyStr ''/some/path'') = Inr True"
    using is_valid_reflects_parse [of ascii_stdlib "PyStr ''/some/path''"] by blast
  moreover from p2 have "is_valid ascii_stdlib (PyStr ''not-a-did-at-all'') = Inr False"
    using is_valid_reflects_parse [of ascii_stdlib "PyStr ''not-a-did-at-all''"] by blast
  moreover from p3
  have "is_valid ascii_stdlib (PyStr ''did:example:123/did:example:123'') = Inr False"
    using is_valid_reflects_parse [of ascii_stdlib "PyStr ''did:example:123/did:example:123''"]
    by blast
  moreover from p4 have "is_valid ascii_stdlib (PyInt 5) = Inl TypeError"
    using is_valid_reflects_parse [of ascii_stdlib "PyInt 5" _ TypeError] by blast
  ultimately show ?thesis by blast
qed

text \<open>
  C10. When the DID matched at the start of the input occurs in the input a second
  time (at a position other than the start), splitting the input on the DID gives
  more than two parts, the unpacking in the constructor raises \<open>ValueError\<close>, so
  \<open>parse\<close> fails and \<open>is_valid\<close> returns false, although the input begins with a DID
  that the pattern accepts.
\<close>

theorem repeated_did_raises_ValueError:
  assumes "DID_URL_DID_PART_PATTERN s = Some d" and "s = a @ d @ b" and "a \<noteq> []"
  shows "(\<exists>parts. py_split s d = Inr parts \<and> 2 < length parts)
         \<and> DIDUrl_init L (PyStr s) = Inl ValueError
         \<and> parse L (PyStr s) = Inl ValueError
         \<and> is_valid L (PyStr s) = Inr False"
proof -
  from repeated_did_parts [OF assms] obtain x y zs where
    d: "d \<noteq> []" and sp: "splits d [] s = [] # x # y # zs" by blast
  from d sp have "py_split s d = Inr ([] # x # y # zs)"
    by (simp add: py_split_def)
  moreover from this assms(1) have "did_and_component s = Inl ValueError"
    by (simp add: did_and_component_def)
  then have "DIDUrl_init L (PyStr s) = Inl ValueError"
    by (simp add: DIDUrl_init_def)
  ultimately show ?thesis
    by (simp add: parse_def validate_def is_valid_def)
qed

theorem repeated_did_raises_ValueError_witness:
  "DID_URL_DID_PART_PATTERN ''did:web:x.org#did:web:x.org'' = Some ''did:web:x.org''
   \<and> ''did:web:x.org#did:web:x.org'' = ''did:web:x.org#'' @ ''did:web:x.org'' @ ''''
   \<and> parse ascii_stdlib (PyStr ''did:web:x.org#did:web:x.org'') = Inl ValueError
   \<and> is_valid ascii_stdlib (PyStr ''did:web:x.org#did:web:x.org'') = Inr False"
proof -
  have h1: "DID_URL_DID_PART_PATTERN ''did:web:x.org#did:web:x.org'' = Some ''did:web:x.org''"
    by (simp add: DID_URL_DID_PART_PATTERN_def Let_def method_char_def idchar_def)
  have h2: "''did:web:x.org#did:web:x.org'' = ''did:web:x.org#'' @ ''did:web:x.org'' @ ''''"
    by simp
  have h3: "''did:web:x.org#'' \<noteq> ''''"
    by simp
  from repeated_did_raises_ValueError [OF h1 h2 h3, of ascii_stdlib] h1 h2 show ?thesis
    by blast
qed

text \<open>
  C1. The string \<^verbatim>\<open>did:example:123/did:example:123\<close> begins with a DID that the
  DID-part pattern accepts, here with a path after it; the round trip promised for
  every valid DID URL needs \<open>parse\<close> to succeed on it, and \<open>parse\<close> raises
  \<open>ValueError\<close>.
\<close>

theorem parse_fails_on_valid_did_url:
  "DID_URL_DID_PART_PATTERN ''did:example:123/did:example:123'' = Some ''did:example:123''
   \<and> parse L (PyStr ''did:example:123/did:example:123'') = Inl ValueError"
  by (simp add: model_defs)

theorem parse_fails_on_valid_did_url_witness:
  "parse ascii_stdlib (PyStr ''did:example:123/did:example:123'') = Inl ValueError"
  using parse_fails_on_valid_did_url [of ascii_stdlib] by blast

text \<open>
  C2. On \<^verbatim>\<open>did:example:123?ref=did:example:123\<close> the literal split cuts at both
  occurrences of the DID and gives three parts; the constructor does not go on with
  the remainder after the first occurrence, \<^verbatim>\<open>?ref=did:example:123\<close>, as its url
  component: it raises \<open>ValueError\<close>.
\<close>

theorem split_cuts_at_every_occurrence:
  "DID_URL_DID_PART_PATTERN ''did:example:123?ref=did:example:123'' = Some ''did:example:123''
   \<and> py_split ''did:example:123?ref=did:example:123'' ''did:example:123''
       = Inr ['''', ''?ref='', '''']
   \<and> did_and_component ''did:example:123?ref=did:example:123'' = Inl ValueError
   \<and> did_and_component ''did:example:123?ref=did:example:123''
       \<noteq> Inr (Some ''did:example:123'', ''?ref=did:example:123'')
   \<and> DIDUrl_init L (PyStr ''did:example:123?ref=did:example:123'') = Inl ValueError"
  by (simp add: model_defs)

theorem split_cuts_at_every_occurrence_witness:
  "DIDUrl_init ascii_stdlib (PyStr ''did:example:123?ref=did:example:123'') = Inl ValueError"
  using split_cuts_at_every_occurrence [of ascii_stdlib] by blast

text \<open>
  C9. \<open>as_absolute\<close> of a DIDUrl and a DID is \<open>unparse\<close> of the DID and the path, query
  and fragment of the DIDUrl; the DID the value had plays no part. For the relative
  DIDUrl parsed from \<^verbatim>\<open>/some/path#frag\<close> and the DID \<^verbatim>\<open>did:example:123\<close> it yields the
  value that \<open>parse\<close> yields on \<^verbatim>\<open>did:example:123/some/path#frag\<close>, so the same string.
\<close>

theorem as_absolute_is_unparse:
  "as_absolute L v d = unparse L d (path v) (query v) (py_of_opt (fragment v))
   \<and> as_absolute L (v\<lparr>did := x\<rparr>) d = as_absolute L v d
   \<and> (\<exists>r a. parse L (PyStr ''/some/path#frag'') = Inr r
         \<and> did r = None
         \<and> as_absolute L r ''did:example:123'' = Inr a
         \<and> parse L (PyStr ''did:example:123/some/path#frag'') = Inr a
         \<and> url_str a = ''did:example:123/some/path#frag'')"
  by (simp add: model_defs)

theorem as_absolute_is_unparse_witness:
  "as_absolute ascii_stdlib
     \<lparr> url_str = ''did:example:456/p?x=1'', did = Some ''did:example:456'',
       path = Some ''/p'', query = Some [(''x'', ''1'')], fragment = None \<rparr> ''did:example:123''
   = unparse ascii_stdlib ''did:example:123'' (Some ''/p'') (Some [(''x'', ''1'')]) PyNone"
  using as_absolute_is_unparse [of ascii_stdlib
     "\<lparr> url_str = ''did:example:456/p?x=1'', did = Some ''did:example:456'',
       path = Some ''/p'', query = Some [(''x'', ''1'')], fragment = None \<rparr>" "''did:example:123''"]
  by (simp add: py_of_opt_def)

lemmas qs_defs =
  parse_qsl_def dict_def unquote_plus_def unquote_def unquote_to_bytes_def
  unquote_item_def hexval_def isascii_def

text \<open>
  C5, as stated, fails: \<^verbatim>\<open>fragment = str(fragment) if fragment else None\<close> tests the
  argument first and stringifies afterwards, so numeric zero is absent.
\<close>

theorem numeric_zero_fragment_is_absent:
  "unparse ascii_stdlib ''did:example:123'' None None (PyInt 0) =
     Inr \<lparr> url_str = ''did:example:123'', did = Some ''did:example:123'', path = None,
           query = None, fragment = None \<rparr>"
  by (simp add: model_defs)

text \<open>
  C5, amended. \<open>unparse\<close> tests the truthiness of the fragment argument before it
  stringifies it: a falsy argument, numeric zero included, is treated as \<open>None\<close> is;
  the string \<^verbatim>\<open>"0"\<close> is truthy, and \<^verbatim>\<open>unparse("did:example:123", fragment="0")\<close> yields a
  DIDUrl whose fragment is \<^verbatim>\<open>"0"\<close>.
\<close>

theorem unparse_tests_fragment_before_str:
  "(\<not> truthy f \<longrightarrow> unparse L d p q f = unparse L d p q PyNone)
   \<and> \<not> truthy (PyInt 0)
   \<and> truthy (PyStr ''0'')
   \<and> (\<exists>v. unparse L ''did:example:123'' None None (PyStr ''0'') = Inr v
          \<and> fragment v = Some ''0'' \<and> url_str v = ''did:example:123#0'')"
proof -
  have "\<not> truthy f \<longrightarrow> unparse L d p q f = unparse L d p q PyNone"
    by (simp add: unparse_def)
  moreover have "\<exists>v. unparse L ''did:example:123'' None None (PyStr ''0'') = Inr v
          \<and> fragment v = Some ''0'' \<and> url_str v = ''did:example:123#0''"
    by (simp add: model_defs)
  ultimately show ?thesis by simp
qed

theorem unparse_tests_fragment_before_str_witness:
  "\<not> truthy (PyInt 0)
   \<and> unparse ascii_stdlib ''did:example:123'' (Some ''path'') None (PyInt 0)
       = unparse ascii_stdlib ''did:example:123'' (Some ''path'') None PyNone"
  using unparse_tests_fragment_before_str
          [of "PyInt 0" ascii_stdlib "''did:example:123''" "Some ''path''" None]
  by simp

text \<open>
  C6, as stated, fails: \<open>unparse\<close> appends the stringified fragment as it is. With the
  fragment \<^verbatim>\<open>a b\<close> the composed string ends with \<^verbatim>\<open>#a b\<close>, not with \<^verbatim>\<open>#a%20b\<close>.
\<close>

theorem fragment_is_not_percent_encoded:
  "unparse ascii_stdlib ''did:example:123'' None None (PyStr ''a b'') =
     Inr \<lparr> url_str = ''did:example:123#a b'', did = Some ''did:example:123'', path = None,
           query = None, fragment = Some ''a b'' \<rparr>
   \<and> quote ''a b'' ''/'' = ''a%20b''
   \<and> \<not> suffix (''#'' @ quote ''a b'' ''/'') ''did:example:123#a b''"
  by (simp add: model_defs quote_def ALWAYS_SAFE_def hex2_def isascii_def suffix_to_prefix)

text \<open>
  C6, amended. For every \<open>unparse\<close> call whose fragment is truthy and whose composed
  string parses, that string ends with \<^verbatim>\<open>#\<close> followed by the stringified fragment,
  unchanged: no percent-encoding is applied to the fragment.
\<close>

theorem unparse_appends_fragment_verbatim:
  assumes "truthy f" and "unparse L d p q f = Inr v"
  shows "suffix (''#'' @ py_str f) (url_str v)"
proof -
  from assms(1) have ne: "py_str f \<noteq> []" by (rule truthy_py_str)
  from assms ne obtain value2 where
    "DIDUrl_init L (PyStr (value2 @ ''#'' @ py_str f)) = Inr v"
    by (auto simp: unparse_def Let_def)
  then have "url_str v = value2 @ ''#'' @ py_str f"
    by (rule DIDUrl_init_url_str)
  then show ?thesis
    by (simp add: suffix_def)
qed

theorem unparse_appends_fragment_verbatim_witness:
  "truthy (PyStr ''a b'')
   \<and> suffix (''#'' @ py_str (PyStr ''a b''))
        (url_str \<lparr> url_str = ''did:example:123/p#a b'', did = Some ''did:example:123'',
                   path = Some ''/p'', query = None, fragment = Some ''a b'' \<rparr>)"
proof -
  have t: "truthy (PyStr ''a b'')" by simp
  have u: "unparse ascii_stdlib ''did:example:123'' (Some ''p'') None (PyStr ''a b'') =
     Inr \<lparr> url_str = ''did:example:123/p#a b'', did = Some ''did:example:123'',
           path = Some ''/p'', query = None, fragment = Some ''a b'' \<rparr>"
    by (simp add: model_defs)
  from unparse_appends_fragment_verbatim [OF t u] t show ?thesis by blast
qed

text \<open>
  C7, as stated, fails: \<^verbatim>\<open>urlparse\<close> does not expand percent escapes and the
  constructor does not either. On \<^verbatim>\<open>did:example:123#a%20b\<close> the fragment is \<^verbatim>\<open>a%20b\<close>,
  not its percent-decoded text \<^verbatim>\<open>a b\<close>.
\<close>

theorem fragment_not_percent_decoded:
  "parse ascii_stdlib (PyStr ''did:example:123#a%20b'') =
     Inr \<lparr> url_str = ''did:example:123#a%20b'', did = Some ''did:example:123'', path = None,
           query = None, fragment = Some ''a%20b'' \<rparr>
   \<and> unquote ascii_stdlib ''a%20b'' = ''a b''"
proof -
  have "parse ascii_stdlib (PyStr ''did:example:123#a%20b'') =
     Inr \<lparr> url_str = ''did:example:123#a%20b'', did = Some ''did:example:123'', path = None,
           query = None, fragment = Some ''a%20b'' \<rparr>"
    by (simp add: model_defs)
  moreover have "unquote ascii_stdlib ''a%20b'' = ''a b''"
    by code_simp
  ultimately show ?thesis by (rule conjI)
qed

text \<open>
  C7, amended. For every successfully parsed DIDUrl, the fragment is the text of the
  input after the first \<^verbatim>\<open>#\<close> as it is written (tab, CR and LF removed, no
  percent-decoding), and \<open>None\<close> when that text is empty or absent.
\<close>

theorem fragment_is_raw_text_after_hash:
  "parse L (PyStr s) = Inr v \<longrightarrow>
     fragment v =
       (if after_first CHR ''#'' (filter (\<lambda>c. c \<notin> set UNSAFE_URL_BYTES_TO_REMOVE) s) = []
        then None
        else Some (after_first CHR ''#''
                     (filter (\<lambda>c. c \<notin> set UNSAFE_URL_BYTES_TO_REMOVE) s)))"
  using parse_fragment_query(1) [of L s v] by (simp add: parse_def)

theorem fragment_is_raw_text_after_hash_witness:
  "parse ascii_stdlib (PyStr ''/p?k=v#a%20b'') =
     Inr \<lparr> url_str = ''/p?k=v#a%20b'', did = None, path = Some ''/p'',
           query = Some [(''k'', ''v'')], fragment = Some ''a%20b'' \<rparr>
   \<and> after_first CHR ''#''
         (filter (\<lambda>c. c \<notin> set UNSAFE_URL_BYTES_TO_REMOVE) ''/p?k=v#a%20b'') = ''a%20b''"
proof -
  have p: "parse ascii_stdlib (PyStr ''/p?k=v#a%20b'') =
     Inr \<lparr> url_str = ''/p?k=v#a%20b'', did = None, path = Some ''/p'',
           query = Some [(''k'', ''v'')], fragment = Some ''a%20b'' \<rparr>"
    by (simp add: model_defs qs_defs)
  from fragment_is_raw_text_after_hash [of ascii_stdlib "''/p?k=v#a%20b''"
      "\<lparr> url_str = ''/p?k=v#a%20b'', did = None, path = Some ''/p'',
           query = Some [(''k'', ''v'')], fragment = Some ''a%20b'' \<rparr>"] p
  show ?thesis by (simp add: after_first_def UNSAFE_URL_BYTES_TO_REMOVE_def)
qed

text \<open>
  C4, as stated, fails: the constructor tests the raw query string, not the decoded
  dictionary. On \<^verbatim>\<open>did:example:123?a\<close> the query string \<^verbatim>\<open>a\<close> is not empty, \<^verbatim>\<open>parse_qsl\<close>
  drops the field for its blank value, and the query is a present, empty dictionary.
\<close>

theorem query_present_but_empty:
  "parse ascii_stdlib (PyStr ''did:example:123?a'') =
     Inr \<lparr> url_str = ''did:example:123?a'', did = Some ''did:example:123'', path = None,
           query = Some [], fragment = None \<rparr>"
  by (simp add: model_defs qs_defs)

text \<open>
  C4, amended. For every successfully parsed DIDUrl, the query is \<open>None\<close> exactly when
  the raw query string (the text between the first \<^verbatim>\<open>?\<close> and the first \<^verbatim>\<open>#\<close>, tab, CR
  and LF removed) is empty or absent; otherwise it is the dictionary decoded from
  that string, which may be empty. In particular \<^verbatim>\<open>did:example:123?\<close> yields \<open>None\<close>.
\<close>

theorem query_absent_iff_raw_query_empty:
  "(parse L (PyStr s) = Inr v \<longrightarrow>
      (query v = None \<longleftrightarrow>
         after_first CHR ''?'' (before_first CHR ''#''
           (filter (\<lambda>c. c \<notin> set UNSAFE_URL_BYTES_TO_REMOVE) s)) = [])
      \<and> (query v \<noteq> None \<longrightarrow>
           query v = Some (dict (parse_qsl L (after_first CHR ''?'' (before_first CHR ''#''
             (filter (\<lambda>c. c \<notin> set UNSAFE_URL_BYTES_TO_REMOVE) s)))))))
   \<and> (\<exists>w. parse L (PyStr ''did:example:123?'') = Inr w \<and> query w = None)"
proof -
  have "\<exists>w. parse L (PyStr ''did:example:123?'') = Inr w \<and> query w = None"
    by (simp add: model_defs)
  moreover have "parse L (PyStr s) = Inr v \<longrightarrow>
      (query v = None \<longleftrightarrow>
         after_first CHR ''?'' (before_first CHR ''#''
           (filter (\<lambda>c. c \<notin> set UNSAFE_URL_BYTES_TO_REMOVE) s)) = [])
      \<and> (query v \<noteq> None \<longrightarrow>
           query v = Some (dict (parse_qsl L (after_first CHR ''?'' (before_first CHR ''#''
             (filter (\<lambda>c. c \<notin> set UNSAFE_URL_BYTES_TO_REMOVE) s))))))"
    using parse_fragment_query(2) [of L s v] by (simp add: parse_def)
  ultimately show ?thesis by blast
qed

theorem query_absent_iff_raw_query_empty_witness:
  "parse ascii_stdlib (PyStr ''/p?k=v#f'') =
     Inr \<lparr> url_str = ''/p?k=v#f'', did = None, path = Some ''/p'',
           query = Some [(''k'', ''v'')], fragment = Some ''f'' \<rparr>
   \<and> after_first CHR ''?'' (before_first CHR ''#''
         (filter (\<lambda>c. c \<notin> set UNSAFE_URL_BYTES_TO_REMOVE) ''/p?k=v#f'')) = ''k=v''
   \<and> Some [(''k'', ''v'')] = Some (dict (parse_qsl ascii_stdlib ''k=v''))"
proof -
  have p: "parse ascii_stdlib (PyStr ''/p?k=v#f'') =
     Inr \<lparr> url_str = ''/p?k=v#f'', did = None, path = Some ''/p'',
           query = Some [(''k'', ''v'')], fragment = Some ''f'' \<rparr>"
    by (simp add: model_defs qs_defs)
  have q: "after_first CHR ''?'' (before_first CHR ''#''
         (filter (\<lambda>c. c \<notin> set UNSAFE_URL_BYTES_TO_REMOVE) ''/p?k=v#f'')) = ''k=v''"
    by (simp add: model_defs)
  from query_absent_iff_raw_query_empty [of ascii_stdlib "''/p?k=v#f''"
      "\<lparr> url_str = ''/p?k=v#f'', did = None, path = Some ''/p'',
           query = Some [(''k'', ''v'')], fragment = Some ''f'' \<rparr>"] p q
  show ?thesis by simp
qed

end
